theory Spec2Isabelle
  imports Complex_Main "HOL-Library.Sublist" "HOL-Library.Log_Nat"
begin

section \<open>Table nameplates: a model of \<^verbatim>\<open>generate_nameplates.py\<close>\<close>

text \<open>
  The program draws one A4 page per name: the name upright in the top half, the name
  rotated by 180 degrees in the bottom half, and a logo in each half. The drawing
  surface is reportlab's canvas, an external library. The model records the calls the
  program makes on the canvas, in order, and what it prints.

  Conventions of the model:
  \<^item> a Python \<^verbatim>\<open>str\<close> whose characters matter (a name, a line of the names file) is the
    list of its code points, so that \<^const>\<open>length\<close> is Python's \<^verbatim>\<open>len\<close>; paths and font
    names, which the program only passes on, are \<^typ>\<open>string\<close>s;
  \<^item> Python's floats are idealised as \<^typ>\<open>real\<close>s; where a property depends on rounding,
    the computation is repeated in double arithmetic (\<open>fl\<close> and the definitions named
    \<open>_double\<close>);
  \<^item> the file system, the font loader, the text measurement and the canvas are the
    \<open>world\<close>: it says which paths exist, whether a font file loads, which lines iterating
    over a file yields (\<open>None\<close> when opening or decoding it raises), how wide a text is,
    and which canvas calls raise. A call that raises is not recorded. The world does not
    change during a run, and measuring a text always returns;
  \<^item> a \<open>run\<close> holds the calls made so far on the canvas of the current \<open>generate\<close>, oldest
    first, and the lines printed so far.
\<close>

subsection \<open>Values\<close>

type_synonym pystr = "nat list"

datatype canvas_op =
    NewCanvas string
  | DrawImage string real real real real
  | SaveState
  | RestoreState
  | SetFont string int
  | Translate real real
  | Rotate int
  | DrawString real real pystr
  | ShowPage
  | Save

datatype exn =
    CanvasError canvas_op
  | TTFError string
  | ReadError string

datatype message =
    WarnFontNotFound string
  | WarnLogoLoad exn
  | WarnLogoNotFound string
  | ErrNamesNotFound string
  | ErrLogoNotFound string
  | ErrFontNotFound string
  | ErrNoNames
  | Loaded nat string
  | Generated string
  | TotalPages nat

record world =
  path_exists :: "string \<Rightarrow> bool"
  ttfont_ok :: "string \<Rightarrow> bool"
  file_lines :: "string \<Rightarrow> pystr list option"
  stringWidth :: "pystr \<Rightarrow> string \<Rightarrow> int \<Rightarrow> real"
  raises :: "canvas_op \<Rightarrow> bool"

record run =
  canvas :: "canvas_op list"
  stdout :: "message list"

record generator =
  logo_path :: string
  font_path :: string
  output_path :: string
  page_width :: real
  page_height :: real
  fold_line :: real
  logo_size :: real
  font_size_large :: int
  font_size_medium :: int
  font_name :: string

record args =
  names_file :: string
  logo :: string
  font :: string
  output' :: string

subsection \<open>reportlab's units and page size\<close>

text \<open>
  \<^verbatim>\<open>reportlab.lib.units\<close> has \<^verbatim>\<open>inch = 72.0\<close>, \<^verbatim>\<open>cm = inch / 2.54\<close>, \<^verbatim>\<open>mm = cm * 0.1\<close>, and
  \<^verbatim>\<open>reportlab.lib.pagesizes\<close> has \<^verbatim>\<open>A4 = (210*mm, 297*mm)\<close>.
\<close>

definition mm :: real where
  "mm = 72 / 2.54 * 0.1"

definition A4 :: "real \<times> real" where
  "A4 = (210 * mm, 297 * mm)"

subsection \<open>Double arithmetic\<close>









subsection \<open>Calls, output and sequencing\<close>

text \<open>
  A step takes the run so far and returns the exception it raised, if any, with the run
  at that moment. \<open>call\<close> is one call on the canvas; \<open>say\<close> is one \<^verbatim>\<open>print\<close>;
  \<open>seq\<close> runs steps one after the other and stops at the first exception, as
  consecutive Python statements do.
\<close>

type_synonym step = "run \<Rightarrow> exn option \<times> run"

definition call :: "world \<Rightarrow> canvas_op \<Rightarrow> step" where
  "call w op r =
     (if raises w op then (Some (CanvasError op), r)
      else (None, r\<lparr>canvas := canvas r @ [op]\<rparr>))"

definition say :: "message \<Rightarrow> step" where
  "say m r = (None, r\<lparr>stdout := stdout r @ [m]\<rparr>)"

fun seq :: "step list \<Rightarrow> step" where
  "seq [] r = (None, r)"
| "seq (f # fs) r =
     (case f r of
        (Some e, r') \<Rightarrow> (Some e, r')
      | (None, r') \<Rightarrow> seq fs r')"

subsection \<open>\<^verbatim>\<open>NameplateGenerator.__init__\<close>\<close>

definition init :: "world \<Rightarrow> string \<Rightarrow> string \<Rightarrow> string \<Rightarrow> run \<Rightarrow> (exn + generator) \<times> run" where
  "init w logo_path' font_path' output_path' r =
     (let g = \<lparr>logo_path = logo_path', font_path = font_path', output_path = output_path',
                page_width = fst A4, page_height = snd A4,
                fold_line = snd A4 / 2,
                logo_size = 30 * mm,
                font_size_large = 48, font_size_medium = 36,
                font_name = []\<rparr>
      in if path_exists w font_path' then
           (if ttfont_ok w font_path' then (Inr (g\<lparr>font_name := ''CustomFont''\<rparr>), r)
            else (Inl (TTFError font_path'), r))
         else (Inr (g\<lparr>font_name := ''Helvetica''\<rparr>), snd (say (WarnFontNotFound font_path') r)))"

subsection \<open>\<^verbatim>\<open>_draw_logo\<close>\<close>

text \<open>
  \<^verbatim>\<open>drawImage\<close> is the one call inside a \<^verbatim>\<open>try\<close>: its exception becomes a warning.
\<close>

definition draw_logo :: "world \<Rightarrow> generator \<Rightarrow> real \<Rightarrow> real \<Rightarrow> real \<Rightarrow> real \<Rightarrow> step" where
  "draw_logo w g x y width height r =
     (if path_exists w (logo_path g) then
        (case call w (DrawImage (logo_path g) x y width height) r of
           (Some e, r') \<Rightarrow> say (WarnLogoLoad e) r'
         | (None, r') \<Rightarrow> (None, r'))
      else say (WarnLogoNotFound (logo_path g)) r)"

subsection \<open>\<^verbatim>\<open>_draw_name\<close>\<close>

text \<open>
  \<open>font_size_for\<close> is the choice of the font size at the head of \<^verbatim>\<open>_draw_name\<close>. The calls
  between \<^verbatim>\<open>saveState\<close> and \<^verbatim>\<open>restoreState\<close> are plain statements: an exception in one of them
  leaves the function at once.
\<close>

definition font_size_for :: "generator \<Rightarrow> pystr \<Rightarrow> int" where
  "font_size_for g name =
     (if length name > 30 then font_size_medium g else font_size_large g)"

definition draw_name :: "world \<Rightarrow> generator \<Rightarrow> pystr \<Rightarrow> real \<Rightarrow> real \<Rightarrow> int \<Rightarrow> step" where
  "draw_name w g name x y rotation =
     (let font_size = font_size_for g name;
          text_width = stringWidth w name (font_name g) font_size
      in seq
        ([call w SaveState,
          call w (SetFont (font_name g) font_size)] @
         (if rotation = 180 then
            [call w (Translate x y),
             call w (Rotate rotation),
             call w (DrawString (- text_width / 2) 0 name)]
          else
            [call w (DrawString (x - text_width / 2) y name)]) @
         [call w RestoreState]))"

subsection \<open>\<^verbatim>\<open>generate\<close>\<close>

text \<open>
  \<open>logo_margin\<close>, \<open>name_y\<close>, \<open>logo_x\<close>, \<open>logo_y\<close> and \<open>name_y_bottom\<close> are the local variables
  of the loop body, \<open>nameplate\<close> is the loop body for one name, and \<open>generate\<close> creates its
  canvas, runs the loop body for each name in order, saves, and prints. The local variables
  are over the reals; \<open>name_y_double\<close> and \<open>name_y_bottom_double\<close> above are the two text
  heights with the rounding of the program.
\<close>

definition logo_margin :: real where
  "logo_margin = 10 * mm"

definition name_y :: "generator \<Rightarrow> real" where
  "name_y g = fold_line g + (page_height g - fold_line g) / 2"

definition logo_x :: "generator \<Rightarrow> real" where
  "logo_x g = page_width g - logo_margin - logo_size g"

definition logo_y :: "generator \<Rightarrow> real" where
  "logo_y g = fold_line g - logo_margin - logo_size g"

definition name_y_bottom :: "generator \<Rightarrow> real" where
  "name_y_bottom g = fold_line g / 2"

definition nameplate :: "world \<Rightarrow> generator \<Rightarrow> pystr \<Rightarrow> step" where
  "nameplate w g name =
     seq [draw_logo w g logo_margin (fold_line g + logo_margin) (logo_size g) (logo_size g),
          draw_name w g name (page_width g / 2) (name_y g) 0,
          draw_logo w g (logo_x g) (logo_y g) (logo_size g) (logo_size g),
          draw_name w g name (page_width g / 2) (name_y_bottom g) 180,
          call w ShowPage]"

definition generate :: "world \<Rightarrow> generator \<Rightarrow> pystr list \<Rightarrow> step" where
  "generate w g names r =
     seq ([call w (NewCanvas (output_path g))] @
          map (nameplate w g) names @
          [call w Save,
           say (Generated (output_path g)),
           say (TotalPages (length names))])
       (r\<lparr>canvas := []\<rparr>)"

subsection \<open>\<^verbatim>\<open>read_names_from_file\<close>\<close>

text \<open>
  The characters \<^verbatim>\<open>str.strip()\<close> removes are those for which \<^verbatim>\<open>str.isspace()\<close> holds.
\<close>

definition isspace :: "nat \<Rightarrow> bool" where
  "isspace c \<longleftrightarrow>
     (9 \<le> c \<and> c \<le> 13) \<or> (28 \<le> c \<and> c \<le> 32) \<or> c = 133 \<or> c = 160 \<or>
     c = 5760 \<or> (8192 \<le> c \<and> c \<le> 8202) \<or> c = 8232 \<or> c = 8233 \<or>
     c = 8239 \<or> c = 8287 \<or> c = 12288"

definition strip :: "pystr \<Rightarrow> pystr" where
  "strip s = rev (dropWhile isspace (rev (dropWhile isspace s)))"

fun read_loop :: "pystr list \<Rightarrow> pystr list \<Rightarrow> pystr list" where
  "read_loop [] names = names"
| "read_loop (line # rest) names =
     (let line' = strip line
      in if line' \<noteq> [] then read_loop rest (names @ [line'])
         else read_loop rest names)"

definition read_names_from_file :: "world \<Rightarrow> string \<Rightarrow> exn + pystr list" where
  "read_names_from_file w file_path =
     (case file_lines w file_path of
        None \<Rightarrow> Inl (ReadError file_path)
      | Some ls \<Rightarrow> Inr (read_loop ls []))"

subsection \<open>\<^verbatim>\<open>main\<close>\<close>

text \<open>
  \<open>main\<close> returns the value handed to \<^verbatim>\<open>exit\<close>, or the exception that escaped.
  The arguments are taken as parsed. The process starts with no canvas and nothing
  printed.
\<close>

definition start :: run where
  "start = \<lparr>canvas = [], stdout = []\<rparr>"

definition main :: "world \<Rightarrow> args \<Rightarrow> (exn + int) \<times> run" where
  "main w a =
     (if \<not> path_exists w (names_file a) then
        (Inr 1, snd (say (ErrNamesNotFound (names_file a)) start))
      else if \<not> path_exists w (logo a) then
        (Inr 1, snd (say (ErrLogoNotFound (logo a)) start))
      else if \<not> path_exists w (font a) then
        (Inr 1, snd (say (ErrFontNotFound (font a)) start))
      else
        (case read_names_from_file w (names_file a) of
           Inl e \<Rightarrow> (Inl e, start)
         | Inr names \<Rightarrow>
             if names = [] then (Inr 1, snd (say ErrNoNames start))
             else
               (let r1 = snd (say (Loaded (length names) (names_file a)) start)
                in case init w (logo a) (font a) (output' a) r1 of
                     (Inl e, r2) \<Rightarrow> (Inl e, r2)
                   | (Inr generator, r2) \<Rightarrow>
                       (case generate w generator names r2 of
                          (Some e, r3) \<Rightarrow> (Inl e, r3)
                        | (None, r3) \<Rightarrow> (Inr 0, r3)))))"

subsection \<open>What the canvas makes of the calls\<close>

text \<open>
  Two readings of a list of canvas calls, after reportlab's canvas.

  The graphics state: \<^verbatim>\<open>saveState\<close> pushes the current state, \<^verbatim>\<open>restoreState\<close> pops it,
  \<^verbatim>\<open>translate\<close> and \<^verbatim>\<open>rotate\<close> extend the current transform, \<^verbatim>\<open>setFont\<close> sets the font.
  The transform is kept as the list of the transformations in force, oldest first.
  \<open>painted\<close> lists what is drawn, each item with the transform in force when it is drawn.

  The pages: \<^verbatim>\<open>showPage\<close> closes the current page, and \<^verbatim>\<open>save\<close> closes it only when it
  holds something, then writes the document. A canvas that is never saved writes nothing.
\<close>

record gstate =
  ctm :: "canvas_op list"
  cur_font :: "(string \<times> int) option"

type_synonym gstack = "gstate \<times> gstate list"

fun exec :: "canvas_op \<Rightarrow> gstack \<Rightarrow> gstack" where
  "exec SaveState (gs, stk) = (gs, gs # stk)"
| "exec RestoreState (gs, []) = (gs, [])"
| "exec RestoreState (gs, s # stk) = (s, stk)"
| "exec (Translate x y) (gs, stk) = (gs\<lparr>ctm := ctm gs @ [Translate x y]\<rparr>, stk)"
| "exec (Rotate a) (gs, stk) = (gs\<lparr>ctm := ctm gs @ [Rotate a]\<rparr>, stk)"
| "exec (SetFont f s) (gs, stk) = (gs\<lparr>cur_font := Some (f, s)\<rparr>, stk)"
| "exec (NewCanvas p) (gs, stk) = (gs, stk)"
| "exec (DrawImage p x y a b) (gs, stk) = (gs, stk)"
| "exec (DrawString x y s) (gs, stk) = (gs, stk)"
| "exec ShowPage (gs, stk) = (gs, stk)"
| "exec Save (gs, stk) = (gs, stk)"

definition exec_all :: "canvas_op list \<Rightarrow> gstack \<Rightarrow> gstack" where
  "exec_all ops st = fold exec ops st"

definition is_drawing :: "canvas_op \<Rightarrow> bool" where
  "is_drawing op = (case op of DrawString x y s \<Rightarrow> True | DrawImage p x y a b \<Rightarrow> True | _ \<Rightarrow> False)"

fun painted :: "canvas_op list \<Rightarrow> gstack \<Rightarrow> (canvas_op \<times> canvas_op list) list" where
  "painted [] st = []"
| "painted (op # ops) st =
     (if is_drawing op then (op, ctm (fst st)) # painted ops st
      else painted ops (exec op st))"

definition gs0 :: gstack where
  "gs0 = (\<lparr>ctm = [], cur_font = None\<rparr>, [])"

fun paginate :: "canvas_op list \<Rightarrow> canvas_op list \<Rightarrow> canvas_op list list" where
  "paginate cur [] = []"
| "paginate cur (op # ops) =
     (case op of
        ShowPage \<Rightarrow> cur # paginate [] ops
      | Save \<Rightarrow> (if cur = [] then [] else [cur])
      | NewCanvas p \<Rightarrow> paginate [] ops
      | _ \<Rightarrow> paginate (cur @ [op]) ops)"

definition pages_of :: "canvas_op list \<Rightarrow> canvas_op list list" where
  "pages_of ops = paginate [] ops"

definition texts_of :: "canvas_op list \<Rightarrow> pystr list" where
  "texts_of ops = concat (map (\<lambda>op. case op of DrawString x y s \<Rightarrow> [s] | _ \<Rightarrow> []) ops)"

subsection \<open>The calls and warnings of one step\<close>

text \<open>
  What \<open>draw_logo\<close>, \<open>draw_name\<close> and one turn of the loop add to the canvas and to the
  output when no call but \<^verbatim>\<open>drawImage\<close> raises. The lemmas \<open>draw_logo_run\<close>,
  \<open>draw_name_seq\<close> and \<open>nameplate_run\<close> below derive them from the model of the code.
\<close>

definition is_image :: "canvas_op \<Rightarrow> bool" where
  "is_image op = (case op of DrawImage p x y a b \<Rightarrow> True | _ \<Rightarrow> False)"

definition logo_calls :: "world \<Rightarrow> generator \<Rightarrow> real \<Rightarrow> real \<Rightarrow> real \<Rightarrow> real \<Rightarrow> canvas_op list" where
  "logo_calls w g x y width height =
     (if path_exists w (logo_path g) \<and> \<not> raises w (DrawImage (logo_path g) x y width height)
      then [DrawImage (logo_path g) x y width height] else [])"

definition logo_msgs :: "world \<Rightarrow> generator \<Rightarrow> real \<Rightarrow> real \<Rightarrow> real \<Rightarrow> real \<Rightarrow> message list" where
  "logo_msgs w g x y width height =
     (if \<not> path_exists w (logo_path g) then [WarnLogoNotFound (logo_path g)]
      else if raises w (DrawImage (logo_path g) x y width height)
      then [WarnLogoLoad (CanvasError (DrawImage (logo_path g) x y width height))]
      else [])"

definition name_calls :: "world \<Rightarrow> generator \<Rightarrow> pystr \<Rightarrow> real \<Rightarrow> real \<Rightarrow> int \<Rightarrow> canvas_op list" where
  "name_calls w g name x y rotation =
     [SaveState, SetFont (font_name g) (font_size_for g name)] @
     (if rotation = 180 then
        [Translate x y, Rotate rotation,
         DrawString (- stringWidth w name (font_name g) (font_size_for g name) / 2) 0 name]
      else
        [DrawString (x - stringWidth w name (font_name g) (font_size_for g name) / 2) y name]) @
     [RestoreState]"

definition page_body :: "world \<Rightarrow> generator \<Rightarrow> pystr \<Rightarrow> canvas_op list" where
  "page_body w g name =
     logo_calls w g logo_margin (fold_line g + logo_margin) (logo_size g) (logo_size g) @
     name_calls w g name (page_width g / 2) (name_y g) 0 @
     logo_calls w g (logo_x g) (logo_y g) (logo_size g) (logo_size g) @
     name_calls w g name (page_width g / 2) (name_y_bottom g) 180"

definition page_msgs :: "world \<Rightarrow> generator \<Rightarrow> message list" where
  "page_msgs w g =
     logo_msgs w g logo_margin (fold_line g + logo_margin) (logo_size g) (logo_size g) @
     logo_msgs w g (logo_x g) (logo_y g) (logo_size g) (logo_size g)"

subsection \<open>Worlds and inputs to run the model on\<close>

text \<open>
  In \<open>w_ok\<close> every path exists, the font loads, no canvas call raises, and a text is
  half its font size wide per character. The names file holds three lines, the second
  one blank. The other worlds differ from it in one respect each; in \<open>w_padded_file\<close> the
  lines of the names file carry whitespace on both sides and a name has a space inside.
\<close>

definition alice :: pystr where
  "alice = [65, 108, 105, 99, 101]"

definition bob :: pystr where
  "bob = [66, 111, 98]"

definition w_ok :: world where
  "w_ok = \<lparr>path_exists = (\<lambda>p. True),
           ttfont_ok = (\<lambda>p. True),
           file_lines = (\<lambda>p. Some [alice @ [10], [32, 10], bob]),
           stringWidth = (\<lambda>name f size. of_nat (length name) * of_int size / 2),
           raises = (\<lambda>op. False)\<rparr>"

definition w_no_logo :: world where
  "w_no_logo = w_ok\<lparr>path_exists := (\<lambda>p. p \<noteq> ''logo.png'')\<rparr>"

definition w_bad_logo :: world where
  "w_bad_logo = w_ok\<lparr>raises := (\<lambda>op. case op of DrawImage p x y a b \<Rightarrow> True | _ \<Rightarrow> False)\<rparr>"

definition w_no_font :: world where
  "w_no_font = w_ok\<lparr>path_exists := (\<lambda>p. p \<noteq> ''font.ttf'')\<rparr>"

definition w_no_names_file :: world where
  "w_no_names_file = w_ok\<lparr>path_exists := (\<lambda>p. p \<noteq> ''names.txt'')\<rparr>"

definition w_blank_file :: world where
  "w_blank_file = w_ok\<lparr>file_lines := (\<lambda>p. Some [[32, 10], [10]])\<rparr>"

definition w_text_fails :: world where
  "w_text_fails = w_ok\<lparr>raises := (\<lambda>op. case op of DrawString x y s \<Rightarrow> True | _ \<Rightarrow> False)\<rparr>"

definition mary_ann :: pystr where
  "mary_ann = [77, 97, 114, 121, 32, 65, 110, 110]"

definition w_padded_file :: world where
  "w_padded_file = w_ok\<lparr>file_lines := (\<lambda>p. Some [[32, 9] @ mary_ann @ [32, 32, 10], [10], bob @ [13, 10]])\<rparr>"

definition the_args :: args where
  "the_args = \<lparr>names_file = ''names.txt'', logo = ''logo.png'', font = ''font.ttf'',
                output' = ''nameplates.pdf''\<rparr>"

definition the_generator :: "world \<Rightarrow> generator" where
  "the_generator w = projr (fst (init w ''logo.png'' ''font.ttf'' ''nameplates.pdf'' start))"

section \<open>Properties\<close>

subsection \<open>Steps that do not raise\<close>

lemma seq_append:
  "seq (fs @ gs) r = (case seq fs r of (Some e, r') \<Rightarrow> (Some e, r') | (None, r') \<Rightarrow> seq gs r')"
  by (induction fs arbitrary: r) (auto split: prod.splits option.splits)

lemma seq_calls:
  "seq (map (call w) ops) r =
     (case dropWhile (\<lambda>op. \<not> raises w op) ops of [] \<Rightarrow> None | op # rest \<Rightarrow> Some (CanvasError op),
      r\<lparr>canvas := canvas r @ takeWhile (\<lambda>op. \<not> raises w op) ops\<rparr>)"
  by (induction ops arbitrary: r) (auto simp: call_def)

lemma seq_calls_ok:
  assumes "\<forall>op\<in>set ops. \<not> raises w op"
  shows "seq (map (call w) ops) r = (None, r\<lparr>canvas := canvas r @ ops\<rparr>)"
  using assms by (induction ops arbitrary: r) (simp_all add: call_def)

lemma draw_name_seq:
  "draw_name w g name x y rotation = seq (map (call w) (name_calls w g name x y rotation))"
  by (simp add: draw_name_def name_calls_def Let_def)

lemma draw_logo_run:
  "draw_logo w g x y a b r =
     (None, r\<lparr>canvas := canvas r @ logo_calls w g x y a b,
              stdout := stdout r @ logo_msgs w g x y a b\<rparr>)"
  by (simp add: draw_logo_def logo_calls_def logo_msgs_def call_def say_def)

lemma name_calls_no_image: "op \<in> set (name_calls w g name x y rotation) \<Longrightarrow> \<not> is_image op"
  by (auto simp: name_calls_def is_image_def split: if_splits)

lemma draw_name_run:
  assumes "\<forall>op. raises w op \<longrightarrow> is_image op"
  shows "draw_name w g name x y rotation r =
           (None, r\<lparr>canvas := canvas r @ name_calls w g name x y rotation\<rparr>)"
  unfolding draw_name_seq
  using assms name_calls_no_image by (intro seq_calls_ok) blast

lemma nameplate_run:
  assumes "\<forall>op. raises w op \<longrightarrow> is_image op"
  shows "nameplate w g name r =
           (None, r\<lparr>canvas := canvas r @ page_body w g name @ [ShowPage],
                    stdout := stdout r @ page_msgs w g\<rparr>)"
proof -
  have "\<not> raises w ShowPage" using assms by (auto simp: is_image_def)
  then show ?thesis
    by (simp add: nameplate_def draw_logo_run draw_name_run [OF assms] call_def
        page_body_def page_msgs_def)
qed

lemma seq_map_run:
  assumes "\<And>n r. f n r = (None, r\<lparr>canvas := canvas r @ P n, stdout := stdout r @ M n\<rparr>)"
  shows "seq (map f names @ rest) r =
           seq rest (r\<lparr>canvas := canvas r @ concat (map P names),
                        stdout := stdout r @ concat (map M names)\<rparr>)"
  by (induction names arbitrary: r) (simp_all add: assms)

lemma generate_run:
  assumes "\<forall>op. raises w op \<longrightarrow> is_image op"
  shows "generate w g names r =
           (None, \<lparr>canvas = NewCanvas (output_path g) #
                       concat (map (\<lambda>n. page_body w g n @ [ShowPage]) names) @ [Save],
                   stdout = stdout r @ concat (map (\<lambda>n. page_msgs w g) names) @
                       [Generated (output_path g), TotalPages (length names)]\<rparr>)"
proof -
  have a: "\<not> raises w (NewCanvas (output_path g))" and b: "\<not> raises w Save"
    using assms by (auto simp: is_image_def)
  show ?thesis
    unfolding generate_def
    by (simp add: a b call_def say_def seq_map_run [where f = "nameplate w g", OF nameplate_run [OF assms]])
qed

lemma paginate_content:
  assumes "\<forall>op\<in>set body. op \<noteq> ShowPage \<and> op \<noteq> Save \<and> (\<forall>p. op \<noteq> NewCanvas p)"
  shows "paginate cur (body @ rest) = paginate (cur @ body) rest"
  using assms
proof (induction body arbitrary: cur)
  case Nil
  then show ?case by simp
next
  case (Cons op body)
  then show ?case by (cases op) simp_all
qed

lemma paginate_pages:
  assumes "\<And>n. \<forall>op\<in>set (P n). op \<noteq> ShowPage \<and> op \<noteq> Save \<and> (\<forall>p. op \<noteq> NewCanvas p)"
  shows "paginate [] (concat (map (\<lambda>n. P n @ [ShowPage]) names) @ [Save]) = map P names"
proof (induction names)
  case Nil
  show ?case by simp
next
  case (Cons n names)
  have "paginate [] (P n @ ShowPage # concat (map (\<lambda>n. P n @ [ShowPage]) names) @ [Save])
        = paginate ([] @ P n) (ShowPage # concat (map (\<lambda>n. P n @ [ShowPage]) names) @ [Save])"
    by (rule paginate_content) (rule assms)
  with Cons show ?case by simp
qed

lemma page_body_content:
  "\<forall>op\<in>set (page_body w g name). op \<noteq> ShowPage \<and> op \<noteq> Save \<and> (\<forall>p. op \<noteq> NewCanvas p)"
  by (auto simp: page_body_def logo_calls_def name_calls_def split: if_splits)

lemma pages_of_generate:
  assumes "\<forall>op. raises w op \<longrightarrow> is_image op"
  shows "pages_of (canvas (snd (generate w g names r))) = map (page_body w g) names"
  by (simp add: generate_run [OF assms] pages_of_def paginate_pages [OF page_body_content])

lemma texts_of_page_body: "texts_of (page_body w g name) = [name, name]"
  by (simp add: texts_of_def page_body_def logo_calls_def name_calls_def)

subsection \<open>The example worlds\<close>

lemma w_ok_simps:
  "path_exists w_ok p" "ttfont_ok w_ok p"
  "file_lines w_ok p = Some [alice @ [10], [32, 10], bob]"
  "stringWidth w_ok name f sz = of_nat (length name) * of_int sz / 2"
  "\<not> raises w_ok op"
  by (simp_all add: w_ok_def)

lemma the_generator_custom:
  assumes "path_exists w ''font.ttf''" and "ttfont_ok w ''font.ttf''"
  shows "the_generator w =
    \<lparr>logo_path = ''logo.png'', font_path = ''font.ttf'', output_path = ''nameplates.pdf'',
      page_width = 75600 / 127, page_height = 106920 / 127, fold_line = 53460 / 127,
      logo_size = 10800 / 127, font_size_large = 48, font_size_medium = 36,
      font_name = ''CustomFont''\<rparr>"
  using assms by (simp add: the_generator_def init_def A4_def mm_def)

lemma the_generator_ok:
  "the_generator w_ok =
    \<lparr>logo_path = ''logo.png'', font_path = ''font.ttf'', output_path = ''nameplates.pdf'',
      page_width = 75600 / 127, page_height = 106920 / 127, fold_line = 53460 / 127,
      logo_size = 10800 / 127, font_size_large = 48, font_size_medium = 36,
      font_name = ''CustomFont''\<rparr>"
  by (rule the_generator_custom) (simp_all add: w_ok_simps)

subsection \<open>The page of each name\<close>

lemma page_of_name:
  assumes "\<forall>op. raises w op \<longrightarrow> is_image op" and "i < length names"
  shows "pages_of (canvas (snd (generate w g names r))) ! i = page_body w g (names ! i)"
  using assms by (simp add: pages_of_generate)

lemma page_body_all_ok:
  assumes "\<forall>op. \<not> raises w op" and "path_exists w (logo_path g)"
  shows "page_body w g name =
     [DrawImage (logo_path g) logo_margin (fold_line g + logo_margin) (logo_size g) (logo_size g),
      SaveState,
      SetFont (font_name g) (font_size_for g name),
      DrawString (page_width g / 2 - stringWidth w name (font_name g) (font_size_for g name) / 2)
        (name_y g) name,
      RestoreState,
      DrawImage (logo_path g) (logo_x g) (logo_y g) (logo_size g) (logo_size g),
      SaveState,
      SetFont (font_name g) (font_size_for g name),
      Translate (page_width g / 2) (name_y_bottom g),
      Rotate 180,
      DrawString (- stringWidth w name (font_name g) (font_size_for g name) / 2) 0 name,
      RestoreState]"
  using assms by (simp add: page_body_def logo_calls_def name_calls_def)

text \<open>
  C1. When nothing raises and the logo file exists, the page of every name starts with
  the top region: the logo drawn at \<open>(logo_margin, fold_line + logo_margin)\<close> with width and
  height \<open>logo_size\<close>, then the name drawn from \<open>page_width / 2 - text_width / 2\<close> at height
  \<open>fold_line + (page_height - fold_line) / 2\<close>, between \<^verbatim>\<open>saveState\<close> and \<^verbatim>\<open>restoreState\<close>.
  Both are drawn with no transformation in force: the rotation is 0.
\<close>

theorem top_region_placement:
  assumes "\<forall>op. \<not> raises w op" and "path_exists w (logo_path g)" and "i < length names"
  shows "prefix
           [DrawImage (logo_path g) logo_margin (fold_line g + logo_margin) (logo_size g) (logo_size g),
            SaveState,
            SetFont (font_name g) (font_size_for g (names ! i)),
            DrawString
              (page_width g / 2 - stringWidth w (names ! i) (font_name g) (font_size_for g (names ! i)) / 2)
              (fold_line g + (page_height g - fold_line g) / 2)
              (names ! i),
            RestoreState]
           (pages_of (canvas (snd (generate w g names r))) ! i)
         \<and> take 2 (painted (pages_of (canvas (snd (generate w g names r))) ! i) gs0) =
           [(DrawImage (logo_path g) logo_margin (fold_line g + logo_margin) (logo_size g) (logo_size g), []),
            (DrawString
              (page_width g / 2 - stringWidth w (names ! i) (font_name g) (font_size_for g (names ! i)) / 2)
              (fold_line g + (page_height g - fold_line g) / 2)
              (names ! i), [])]"
proof -
  from assms(1) have im: "\<forall>op. raises w op \<longrightarrow> is_image op" by simp
  have pg: "pages_of (canvas (snd (generate w g names r))) ! i = page_body w g (names ! i)"
    using im assms(3) by (rule page_of_name)
  show ?thesis
    unfolding pg page_body_all_ok [OF assms(1,2)]
    by (simp add: name_y_def gs0_def is_drawing_def)
qed

theorem top_region_placement_witness:
  "prefix
     [DrawImage ''logo.png'' (3600 / 127) (57060 / 127) (10800 / 127) (10800 / 127),
      SaveState,
      SetFont ''CustomFont'' 48,
      DrawString (30180 / 127) (80190 / 127) alice,
      RestoreState]
     (pages_of (canvas (snd (generate w_ok (the_generator w_ok) [alice, bob] start))) ! 0)"
proof -
  have a: "\<forall>op. \<not> raises w_ok op" by (simp add: w_ok_simps)
  have b: "path_exists w_ok (logo_path (the_generator w_ok))" by (simp add: w_ok_simps)
  have c: "0 < length [alice, bob]" by simp
  from top_region_placement [OF a b c, of start] show ?thesis
    by (simp add: the_generator_ok logo_margin_def mm_def font_size_for_def w_ok_simps)
       (simp add: alice_def)
qed

text \<open>
  C2. When nothing raises and the logo file exists, the page of every name ends with the
  bottom region: the logo drawn at
  \<open>(page_width - logo_margin - logo_size, fold_line - logo_margin - logo_size)\<close> with
  width and height \<open>logo_size\<close>, then, between \<^verbatim>\<open>saveState\<close> and \<^verbatim>\<open>restoreState\<close>, the origin
  moved to \<open>(page_width / 2, fold_line / 2)\<close>, the frame rotated by 180 degrees, and the
  name drawn from \<open>(- text_width / 2, 0)\<close>. The logo is drawn with no transformation
  in force, the name under exactly that translation and rotation.
\<close>

theorem bottom_region_placement:
  assumes "\<forall>op. \<not> raises w op" and "path_exists w (logo_path g)" and "i < length names"
  shows "suffix
           [DrawImage (logo_path g)
              (page_width g - logo_margin - logo_size g) (fold_line g - logo_margin - logo_size g)
              (logo_size g) (logo_size g),
            SaveState,
            SetFont (font_name g) (font_size_for g (names ! i)),
            Translate (page_width g / 2) (fold_line g / 2),
            Rotate 180,
            DrawString
              (- stringWidth w (names ! i) (font_name g) (font_size_for g (names ! i)) / 2) 0
              (names ! i),
            RestoreState]
           (pages_of (canvas (snd (generate w g names r))) ! i)
         \<and> drop 2 (painted (pages_of (canvas (snd (generate w g names r))) ! i) gs0) =
           [(DrawImage (logo_path g)
              (page_width g - logo_margin - logo_size g) (fold_line g - logo_margin - logo_size g)
              (logo_size g) (logo_size g), []),
            (DrawString
              (- stringWidth w (names ! i) (font_name g) (font_size_for g (names ! i)) / 2) 0
              (names ! i),
             [Translate (page_width g / 2) (fold_line g / 2), Rotate 180])]"
proof -
  from assms(1) have im: "\<forall>op. raises w op \<longrightarrow> is_image op" by simp
  have pg: "pages_of (canvas (snd (generate w g names r))) ! i = page_body w g (names ! i)"
    using im assms(3) by (rule page_of_name)
  have sf: "suffix [a6, a7, a8, a9, a10, a11, a12] [a1, a2, a3, a4, a5, a6, a7, a8, a9, a10, a11, a12]"
    for a1 a2 a3 a4 a5 a6 a7 a8 a9 a10 a11 a12 :: canvas_op
    by (rule suffixI [of _ "[a1, a2, a3, a4, a5]"]) simp
  show ?thesis
    unfolding pg page_body_all_ok [OF assms(1,2)]
    by (simp add: sf logo_x_def logo_y_def name_y_bottom_def gs0_def is_drawing_def)
qed

theorem bottom_region_placement_witness:
  "suffix
     [DrawImage ''logo.png'' (61200 / 127) (39060 / 127) (10800 / 127) (10800 / 127),
      SaveState,
      SetFont ''CustomFont'' 48,
      Translate (37800 / 127) (26730 / 127),
      Rotate 180,
      DrawString (- 36) 0 bob,
      RestoreState]
     (pages_of (canvas (snd (generate w_ok (the_generator w_ok) [alice, bob] start))) ! 1)"
proof -
  have a: "\<forall>op. \<not> raises w_ok op" by (simp add: w_ok_simps)
  have b: "path_exists w_ok (logo_path (the_generator w_ok))" by (simp add: w_ok_simps)
  have c: "1 < length [alice, bob]" by simp
  from bottom_region_placement [OF a b c, of start] show ?thesis
    by (simp add: the_generator_ok logo_margin_def mm_def font_size_for_def w_ok_simps)
       (simp add: bob_def)
qed

subsection \<open>The font size\<close>

lemma init_sizes:
  assumes "init w lp fp outp r0 = (Inr g, r1)"
  shows "font_size_large g = 48" and "font_size_medium g = 36"
  using assms by (auto simp: init_def Let_def split: if_splits)

text \<open>
  C3. For a generator made by \<open>init\<close>, the font size of a name is 36 when the name has
  more than 30 characters and 48 otherwise, so 48 at exactly 30 characters. The choice
  is a total function of the name: it has no error case. It is the size that
  \<open>draw_name\<close> sets on the canvas, in either region, whenever \<^verbatim>\<open>saveState\<close> and \<^verbatim>\<open>setFont\<close>
  do not raise.
\<close>

theorem font_size_tiers:
  assumes "init w lp fp outp r0 = (Inr g, r1)"
  shows "font_size_for g name = (if 30 < length name then 36 else 48)
         \<and> (length name = 30 \<longrightarrow> font_size_for g name = 48)
         \<and> (\<not> raises w' SaveState \<and> \<not> raises w' (SetFont (font_name g) (font_size_for g name)) \<longrightarrow>
              canvas (snd (draw_name w' g name x y rotation r)) ! (length (canvas r) + 1) =
                SetFont (font_name g) (if 30 < length name then 36 else 48))"
proof -
  have fs: "font_size_for g name = (if 30 < length name then 36 else 48)"
    by (simp add: font_size_for_def init_sizes [OF assms])
  have "canvas (snd (draw_name w' g name x y rotation r)) ! (length (canvas r) + 1) =
          SetFont (font_name g) (font_size_for g name)"
    if ok: "\<not> raises w' SaveState" "\<not> raises w' (SetFont (font_name g) (font_size_for g name))"
  proof -
    have "canvas (snd (draw_name w' g name x y rotation r)) =
            canvas r @ takeWhile (\<lambda>op. \<not> raises w' op) (name_calls w' g name x y rotation)"
      by (simp add: draw_name_seq seq_calls)
    moreover have "\<exists>rest. takeWhile (\<lambda>op. \<not> raises w' op) (name_calls w' g name x y rotation) =
            SaveState # SetFont (font_name g) (font_size_for g name) # rest"
      using ok by (simp add: name_calls_def)
    ultimately show ?thesis by (auto simp: nth_append)
  qed
  with fs show ?thesis by simp
qed

theorem font_size_tiers_witness:
  "font_size_for (the_generator w_ok) (replicate 30 120) = 48
   \<and> font_size_for (the_generator w_ok) (replicate 31 120) = 36
   \<and> canvas (snd (draw_name w_ok (the_generator w_ok) (replicate 31 120) 100 50 180 start)) ! 1 =
       SetFont ''CustomFont'' 36"
proof -
  have i: "init w_ok ''logo.png'' ''font.ttf'' ''nameplates.pdf'' start = (Inr (the_generator w_ok), start)"
    by (simp add: init_def w_ok_simps the_generator_ok A4_def mm_def)
  have c: "canvas start = []" by (simp add: start_def)
  from font_size_tiers [OF i, of "replicate 30 120" w_ok 100 50 180 start]
    font_size_tiers [OF i, of "replicate 31 120" w_ok 100 50 180 start]
  show ?thesis
    by (simp add: w_ok_simps the_generator_ok c)
qed

subsection \<open>Rounding to a double\<close>





subsection \<open>The fold\<close>


















subsection \<open>Pages\<close>

lemma count_show_page:
  "length (filter (\<lambda>op. op = ShowPage) (concat (map (\<lambda>n. page_body w g n @ [ShowPage]) names))) =
     length names"
proof (induction names)
  case Nil
  show ?case by simp
next
  case (Cons n names)
  have "filter (\<lambda>op. op = ShowPage) (page_body w g n) = []"
    using page_body_content [of w g n] by (auto simp: filter_empty_conv)
  with Cons show ?case by simp
qed

text \<open>
  C5, as the code has it. For every list of names, duplicates included, when no canvas
  call but \<^verbatim>\<open>drawImage\<close> raises: \<open>generate\<close> returns normally; after the calls of each name
  it calls \<^verbatim>\<open>showPage\<close>, after the last name too, and then \<^verbatim>\<open>save\<close>; \<^verbatim>\<open>showPage\<close> is called
  once per name; the document has as many pages as there are names, and page \<open>i\<close> holds
  the two text draws of name \<open>i\<close>, in input order.
\<close>

theorem generate_one_page_per_name:
  assumes "\<forall>op. raises w op \<longrightarrow> is_image op"
  shows "fst (generate w g names r) = None
         \<and> canvas (snd (generate w g names r)) =
             NewCanvas (output_path g) #
             concat (map (\<lambda>n. page_body w g n @ [ShowPage]) names) @ [Save]
         \<and> length (filter (\<lambda>op. op = ShowPage) (canvas (snd (generate w g names r)))) = length names
         \<and> length (pages_of (canvas (snd (generate w g names r)))) = length names
         \<and> map texts_of (pages_of (canvas (snd (generate w g names r)))) = map (\<lambda>n. [n, n]) names"
proof -
  have "map texts_of (pages_of (canvas (snd (generate w g names r)))) = map (\<lambda>n. [n, n]) names"
    by (simp add: pages_of_generate [OF assms] texts_of_page_body)
  moreover have "length (pages_of (canvas (snd (generate w g names r)))) = length names"
    by (simp add: pages_of_generate [OF assms])
  moreover have
    "length (filter (\<lambda>op. op = ShowPage) (canvas (snd (generate w g names r)))) = length names"
    by (simp add: generate_run [OF assms] count_show_page)
  ultimately show ?thesis
    by (simp add: generate_run [OF assms])
qed

theorem generate_one_page_per_name_witness:
  "fst (generate w_ok (the_generator w_ok) [alice, bob, alice] start) = None
   \<and> length (filter (\<lambda>op. op = ShowPage)
        (canvas (snd (generate w_ok (the_generator w_ok) [alice, bob, alice] start)))) = 3
   \<and> length (pages_of (canvas (snd (generate w_ok (the_generator w_ok) [alice, bob, alice] start)))) = 3
   \<and> map texts_of (pages_of (canvas (snd (generate w_ok (the_generator w_ok) [alice, bob, alice] start)))) =
       [[alice, alice], [bob, bob], [alice, alice]]"
proof -
  have a: "\<forall>op. raises w_ok op \<longrightarrow> is_image op" by (simp add: w_ok_simps)
  note t = generate_one_page_per_name [OF a, of "the_generator w_ok" "[alice, bob, alice]" start]
  from t have "fst (generate w_ok (the_generator w_ok) [alice, bob, alice] start) = None"
    by (rule conjunct1)
  moreover from t have "length (filter (\<lambda>op. op = ShowPage)
        (canvas (snd (generate w_ok (the_generator w_ok) [alice, bob, alice] start)))) =
      length [alice, bob, alice]"
    by blast
  moreover from t have
    "length (pages_of (canvas (snd (generate w_ok (the_generator w_ok) [alice, bob, alice] start)))) =
      length [alice, bob, alice]"
    by blast
  moreover from t have
    "map texts_of (pages_of (canvas (snd (generate w_ok (the_generator w_ok) [alice, bob, alice] start)))) =
      map (\<lambda>n. [n, n]) [alice, bob, alice]"
    by blast
  ultimately show ?thesis by simp
qed

text \<open>
  C5, as the specification has it, fails for a single name: the last three calls on the canvas
  are the \<^verbatim>\<open>restoreState\<close> that ends the name's last draw, a \<^verbatim>\<open>showPage\<close>, and \<^verbatim>\<open>save\<close>. A
  page boundary is emitted after the last name.
\<close>

theorem show_page_after_last_name:
  "drop 12 (canvas (snd (generate w_ok (the_generator w_ok) [alice] start))) =
     [RestoreState, ShowPage, Save]
   \<and> length (canvas (snd (generate w_ok (the_generator w_ok) [alice] start))) = 15"
proof -
  have a: "\<forall>op. raises w_ok op \<longrightarrow> is_image op" by (simp add: w_ok_simps)
  show ?thesis
    by (simp add: generate_run [OF a] page_body_def logo_calls_def name_calls_def w_ok_simps)
qed

subsection \<open>Reading the names\<close>

lemma read_loop_filter:
  "read_loop ls names = names @ filter (\<lambda>s. s \<noteq> []) (map strip ls)"
  by (induction ls arbitrary: names) (simp_all add: Let_def)

lemma strip_ends:
  assumes "strip s \<noteq> []"
  shows "\<not> isspace (hd (strip s))" and "\<not> isspace (last (strip s))"
proof -
  let ?t = "dropWhile isspace s"
  let ?u = "dropWhile isspace (rev ?t)"
  from assms have u: "?u \<noteq> []" by (simp add: strip_def)
  then have t: "?t \<noteq> []" by (auto dest: set_dropWhileD)
  have "last (strip s) = hd ?u" using u by (simp add: strip_def last_rev)
  with u show "\<not> isspace (last (strip s))" by (simp add: hd_dropWhile)
  have "hd (strip s) = last ?u" using u by (simp add: strip_def hd_rev)
  also have "\<dots> = last (rev ?t)"
  proof -
    have "rev ?t = takeWhile isspace (rev ?t) @ ?u" by simp
    with u show ?thesis by (metis last_appendR)
  qed
  also have "\<dots> = hd ?t" using t by (simp add: last_rev)
  finally show "\<not> isspace (hd (strip s))" using t by (simp add: hd_dropWhile)
qed

lemma strip_blank: "strip s = [] \<longleftrightarrow> (\<forall>c\<in>set s. isspace c)"
proof
  assume "strip s = []"
  then have a: "\<forall>x\<in>set (dropWhile isspace s). isspace x"
    by (simp add: strip_def dropWhile_eq_Nil_conv)
  have "dropWhile isspace s = []"
  proof (rule ccontr)
    assume n: "dropWhile isspace s \<noteq> []"
    then have "\<not> isspace (hd (dropWhile isspace s))" by (rule hd_dropWhile)
    moreover from n have "hd (dropWhile isspace s) \<in> set (dropWhile isspace s)" by simp
    ultimately show False using a by blast
  qed
  then show "\<forall>c\<in>set s. isspace c" by (simp add: dropWhile_eq_Nil_conv)
next
  assume "\<forall>c\<in>set s. isspace c"
  then have e: "dropWhile isspace s = []" by (simp add: dropWhile_eq_Nil_conv)
  show "strip s = []" by (simp only: strip_def e rev.simps dropWhile.simps)
qed

lemma strip_decomp:
  "\<exists>pre suf. l = pre @ strip l @ suf \<and> (\<forall>c\<in>set pre. isspace c) \<and> (\<forall>c\<in>set suf. isspace c)"
proof -
  let ?t = "dropWhile isspace l"
  have "strip l @ rev (takeWhile isspace (rev ?t)) =
          rev (takeWhile isspace (rev ?t) @ dropWhile isspace (rev ?t))"
    unfolding strip_def by (simp only: rev_append)
  then have t: "?t = strip l @ rev (takeWhile isspace (rev ?t))"
    by simp
  have "l = takeWhile isspace l @ ?t" by simp
  with t have "l = takeWhile isspace l @ strip l @ rev (takeWhile isspace (rev ?t))" by simp
  moreover have "\<forall>c\<in>set (takeWhile isspace l). isspace c" by (auto dest: set_takeWhileD)
  moreover have "\<forall>c\<in>set (rev (takeWhile isspace (rev ?t))). isspace c"
    by (auto dest: set_takeWhileD)
  ultimately show ?thesis by blast
qed

lemma stripped_lines:
  "list_all2
     (\<lambda>l n. \<exists>pre suf. l = pre @ n @ suf \<and> (\<forall>c\<in>set pre. isspace c) \<and> (\<forall>c\<in>set suf. isspace c) \<and>
              n \<noteq> [] \<and> \<not> isspace (hd n) \<and> \<not> isspace (last n))
     (filter (\<lambda>l. \<exists>c\<in>set l. \<not> isspace c) ls)
     (filter (\<lambda>s. s \<noteq> []) (map strip ls))"
proof (induction ls)
  case Nil
  show ?case by simp
next
  case (Cons l ls)
  show ?case
  proof (cases "strip l = []")
    case True
    then have "\<not> (\<exists>c\<in>set l. \<not> isspace c)" by (simp add: strip_blank)
    with True Cons show ?thesis by simp
  next
    case False
    then have nb: "\<exists>c\<in>set l. \<not> isspace c" by (simp add: strip_blank)
    from strip_decomp [of l] strip_ends [OF False] False
    have "\<exists>pre suf. l = pre @ strip l @ suf \<and> (\<forall>c\<in>set pre. isspace c) \<and>
            (\<forall>c\<in>set suf. isspace c) \<and> strip l \<noteq> [] \<and> \<not> isspace (hd (strip l)) \<and>
            \<not> isspace (last (strip l))"
      by blast
    with nb False Cons show ?thesis by simp
  qed
qed

text \<open>
  C10. When the file can be read, \<open>read_names_from_file\<close> returns one name for each line
  that holds a character other than whitespace, in file order. Each name is its line
  without a leading and a trailing part that are whitespace only: the line is the leading
  part, then the name, then the trailing part, and the name is not empty and neither
  starts nor ends with a whitespace character, so nothing inside the name is removed. A
  line of whitespace only yields no name. The names are the stripped lines that are not
  empty.
\<close>

theorem read_names_stripped_in_order:
  assumes "file_lines w file_path = Some ls"
  shows "\<exists>names. read_names_from_file w file_path = Inr names
         \<and> list_all2
             (\<lambda>l n. \<exists>pre suf. l = pre @ n @ suf \<and>
                      (\<forall>c\<in>set pre. isspace c) \<and> (\<forall>c\<in>set suf. isspace c) \<and>
                      n \<noteq> [] \<and> \<not> isspace (hd n) \<and> \<not> isspace (last n))
             (filter (\<lambda>l. \<exists>c\<in>set l. \<not> isspace c) ls) names
         \<and> names = filter (\<lambda>s. s \<noteq> []) (map strip ls)
         \<and> (\<forall>n\<in>set names. n \<noteq> [] \<and> \<not> isspace (hd n) \<and> \<not> isspace (last n))
         \<and> (\<forall>l\<in>set ls. (\<forall>c\<in>set l. isspace c) \<longrightarrow> strip l = [])"
proof -
  let ?names = "filter (\<lambda>s. s \<noteq> []) (map strip ls)"
  have "read_names_from_file w file_path = Inr ?names"
    using assms by (simp add: read_names_from_file_def read_loop_filter)
  moreover have "n \<noteq> [] \<and> \<not> isspace (hd n) \<and> \<not> isspace (last n)" if "n \<in> set ?names" for n
    using that strip_ends by auto
  moreover have "strip l = []" if "\<forall>c\<in>set l. isspace c" for l
    using that by (simp add: strip_blank)
  ultimately show ?thesis using stripped_lines [of ls] by blast
qed

lemma isspace_simps:
  "isspace 10" "isspace 32" "isspace 9" "\<not> isspace 65" "\<not> isspace 66" "\<not> isspace 98"
  "\<not> isspace 101" "\<not> isspace 108" "\<not> isspace 105" "\<not> isspace 99" "\<not> isspace 111"
  by (simp_all add: isspace_def)

lemma strip_examples:
  "strip (alice @ [10]) = alice" "strip [32, 10] = []" "strip bob = bob" "strip [10] = []"
  "strip [32, 32, 66, 111, 98, 9, 10] = bob"
  by (simp_all add: strip_def alice_def bob_def isspace_simps)

lemma strip_padded:
  "strip (32 # 9 # mary_ann @ [32, 32, 10]) = mary_ann" "strip (bob @ [13, 10]) = bob"
  by (simp_all add: strip_def mary_ann_def bob_def isspace_def)

theorem read_names_stripped_in_order_witness:
  "read_names_from_file w_padded_file ''names.txt'' = Inr [mary_ann, bob]
   \<and> read_names_from_file w_ok ''names.txt'' = Inr [alice, bob]"
proof -
  have a: "file_lines w_padded_file ''names.txt'' =
             Some [[32, 9] @ mary_ann @ [32, 32, 10], [10], bob @ [13, 10]]"
    by (simp add: w_padded_file_def)
  have b: "file_lines w_ok ''names.txt'' = Some [alice @ [10], [32, 10], bob]"
    by (simp add: w_ok_simps)
  have ne: "mary_ann \<noteq> []" "bob \<noteq> []" "alice \<noteq> []"
    by (simp_all add: mary_ann_def bob_def alice_def)
  from read_names_stripped_in_order [OF a] obtain names where
    "read_names_from_file w_padded_file ''names.txt'' = Inr names"
    and "names = filter (\<lambda>s. s \<noteq> []) (map strip [[32, 9] @ mary_ann @ [32, 32, 10], [10], bob @ [13, 10]])"
    by blast
  then have "read_names_from_file w_padded_file ''names.txt'' = Inr [mary_ann, bob]"
    by (simp add: strip_padded strip_examples ne)
  moreover from read_names_stripped_in_order [OF b] obtain names' where
    "read_names_from_file w_ok ''names.txt'' = Inr names'"
    and "names' = filter (\<lambda>s. s \<noteq> []) (map strip [alice @ [10], [32, 10], bob])"
    by blast
  then have "read_names_from_file w_ok ''names.txt'' = Inr [alice, bob]"
    by (simp add: strip_examples ne)
  ultimately show ?thesis by simp
qed

subsection \<open>The command line\<close>

lemma generate_saved:
  assumes "fst (generate w g names r) = None"
  shows "last (canvas (snd (generate w g names r))) = Save"
proof -
  let ?fs = "[call w (NewCanvas (output_path g))] @ map (nameplate w g) names"
  let ?r0 = "r\<lparr>canvas := []\<rparr>"
  have g: "generate w g names r =
      (case seq ?fs ?r0 of
         (Some e, r') \<Rightarrow> (Some e, r')
       | (None, r') \<Rightarrow>
           seq [call w Save, say (Generated (output_path g)), say (TotalPages (length names))] r')"
    unfolding generate_def by (simp only: seq_append [symmetric] append_assoc)
  obtain e r' where s: "seq ?fs ?r0 = (e, r')" by (cases "seq ?fs ?r0")
  from assms show ?thesis
    unfolding g s
    by (cases e; cases "raises w Save") (simp_all add: call_def say_def)
qed

lemma main_missing_file:
  assumes "\<not> path_exists w (names_file a) \<or> \<not> path_exists w (logo a) \<or> \<not> path_exists w (font a)"
  shows "fst (main w a) = Inr 1" and "canvas (snd (main w a)) = []"
  using assms by (auto simp: main_def say_def start_def)

lemma main_no_names:
  assumes "path_exists w (names_file a)" and "path_exists w (logo a)" and "path_exists w (font a)"
    and "read_names_from_file w (names_file a) = Inr []"
  shows "main w a = (Inr 1, \<lparr>canvas = [], stdout = [ErrNoNames]\<rparr>)"
  using assms by (simp add: main_def say_def start_def)

lemma main_success:
  assumes "path_exists w (names_file a)" and "path_exists w (logo a)" and "path_exists w (font a)"
    and "read_names_from_file w (names_file a) = Inr names" and "names \<noteq> []"
    and "ttfont_ok w (font a)" and "\<forall>op. raises w op \<longrightarrow> is_image op"
  shows "fst (main w a) = Inr 0" and "last (canvas (snd (main w a))) = Save"
    and "length (pages_of (canvas (snd (main w a)))) = length names"
  using assms
  by (simp_all add: main_def init_def Let_def generate_run [OF assms(7)] pages_of_def
      paginate_pages [OF page_body_content])

lemma main_zero_saved:
  assumes "fst (main w a) = Inr 0"
  shows "last (canvas (snd (main w a))) = Save"
proof -
  from assms obtain names g r2 where
    m: "main w a = (case generate w g names r2 of (Some e, r3) \<Rightarrow> (Inl e, r3) | (None, r3) \<Rightarrow> (Inr 0, r3))"
    by (auto simp: main_def Let_def split: if_splits sum.splits prod.splits)
  obtain e r3 where gen: "generate w g names r2 = (e, r3)" by (cases "generate w g names r2")
  with assms m have "e = None" by (cases e) simp_all
  with gen generate_saved [of w g names r2] have "last (canvas r3) = Save" by simp
  with m gen \<open>e = None\<close> show ?thesis by simp
qed

text \<open>
  C7. \<open>main\<close> hands 1 to \<^verbatim>\<open>exit\<close> when the names file, the logo file or the font file does
  not exist, and then no call is made on any canvas; it hands 1 when all three exist and
  the names file yields no name, again with no canvas call; it hands 0 when all three
  exist, the file yields at least one name, the font loads and no canvas call but
  \<^verbatim>\<open>drawImage\<close> raises, and then \<^verbatim>\<open>save\<close> is the last canvas call and the document has one
  page per name. Whenever it hands 0, the last canvas call is \<^verbatim>\<open>save\<close>.
\<close>

theorem main_exit_codes:
  "(\<not> path_exists w (names_file a) \<or> \<not> path_exists w (logo a) \<or> \<not> path_exists w (font a) \<longrightarrow>
      fst (main w a) = Inr 1 \<and> canvas (snd (main w a)) = [])
   \<and> (path_exists w (names_file a) \<and> path_exists w (logo a) \<and> path_exists w (font a) \<and>
      read_names_from_file w (names_file a) = Inr [] \<longrightarrow>
      fst (main w a) = Inr 1 \<and> canvas (snd (main w a)) = [])
   \<and> (path_exists w (names_file a) \<and> path_exists w (logo a) \<and> path_exists w (font a) \<and>
      read_names_from_file w (names_file a) = Inr names \<and> names \<noteq> [] \<and>
      ttfont_ok w (font a) \<and> (\<forall>op. raises w op \<longrightarrow> is_image op) \<longrightarrow>
      fst (main w a) = Inr 0 \<and> last (canvas (snd (main w a))) = Save \<and>
      length (pages_of (canvas (snd (main w a)))) = length names)
   \<and> (fst (main w a) = Inr 0 \<longrightarrow> last (canvas (snd (main w a))) = Save)"
  using main_missing_file [of w a] main_no_names [of w a] main_success [of w a names]
    main_zero_saved [of w a]
  by (intro conjI impI) simp_all

lemma names_not_empty: "alice \<noteq> []" "bob \<noteq> []"
  by (simp_all add: alice_def bob_def)

lemma read_names_ok: "read_names_from_file w_ok p = Inr [alice, bob]"
  by (simp add: read_names_from_file_def w_ok_simps strip_examples names_not_empty)

lemma w_blank_file_simps:
  "path_exists w_blank_file p" "ttfont_ok w_blank_file p" "\<not> raises w_blank_file op"
  "read_names_from_file w_blank_file p = Inr []"
  by (simp_all add: w_blank_file_def w_ok_def read_names_from_file_def strip_examples)

lemma w_missing_simps:
  "path_exists w_no_names_file p \<longleftrightarrow> p \<noteq> ''names.txt''"
  "path_exists w_no_logo p \<longleftrightarrow> p \<noteq> ''logo.png''"
  "path_exists w_no_font p \<longleftrightarrow> p \<noteq> ''font.ttf''"
  "\<not> raises w_no_logo op" "\<not> raises w_no_font op"
  by (simp_all add: w_no_names_file_def w_no_logo_def w_no_font_def w_ok_def)

lemma the_args_simps:
  "names_file the_args = ''names.txt''" "logo the_args = ''logo.png''"
  "font the_args = ''font.ttf''" "output' the_args = ''nameplates.pdf''"
  by (simp_all add: the_args_def)

theorem main_exit_codes_witness:
  "fst (main w_no_names_file the_args) = Inr 1 \<and> canvas (snd (main w_no_names_file the_args)) = []
   \<and> fst (main w_no_logo the_args) = Inr 1 \<and> canvas (snd (main w_no_logo the_args)) = []
   \<and> fst (main w_no_font the_args) = Inr 1 \<and> canvas (snd (main w_no_font the_args)) = []
   \<and> fst (main w_blank_file the_args) = Inr 1 \<and> canvas (snd (main w_blank_file the_args)) = []
   \<and> fst (main w_ok the_args) = Inr 0 \<and> last (canvas (snd (main w_ok the_args))) = Save
   \<and> length (pages_of (canvas (snd (main w_ok the_args)))) = 2"
proof -
  have "fst (main w_no_names_file the_args) = Inr 1 \<and> canvas (snd (main w_no_names_file the_args)) = []"
    using main_exit_codes [of w_no_names_file the_args]
    by (simp add: w_missing_simps the_args_simps)
  moreover
  have "fst (main w_no_logo the_args) = Inr 1 \<and> canvas (snd (main w_no_logo the_args)) = []"
    using main_exit_codes [of w_no_logo the_args]
    by (simp add: w_missing_simps the_args_simps)
  moreover
  have "fst (main w_no_font the_args) = Inr 1 \<and> canvas (snd (main w_no_font the_args)) = []"
    using main_exit_codes [of w_no_font the_args]
    by (simp add: w_missing_simps the_args_simps)
  moreover
  have "fst (main w_blank_file the_args) = Inr 1 \<and> canvas (snd (main w_blank_file the_args)) = []"
    using main_exit_codes [of w_blank_file the_args]
    by (simp add: w_blank_file_simps the_args_simps)
  moreover
  have "fst (main w_ok the_args) = Inr 0 \<and> last (canvas (snd (main w_ok the_args))) = Save
        \<and> length (pages_of (canvas (snd (main w_ok the_args)))) = 2"
    using main_exit_codes [of w_ok the_args "[alice, bob]"]
    by (simp add: w_ok_simps the_args_simps read_names_ok)
  ultimately show ?thesis by simp
qed

subsection \<open>An empty list of names\<close>

text \<open>
  C6, as the code has it. A names file in which every line is whitespace only is rejected
  by \<open>main\<close>: it prints the error and hands 1 to \<^verbatim>\<open>exit\<close>, and no call is made on any
  canvas. \<open>generate\<close> has no such check: on the empty list it creates the canvas, draws
  nothing, calls \<^verbatim>\<open>save\<close> and reports 0 pages, whenever these two canvas calls do not raise.
\<close>

theorem empty_names_rejected_by_main_only:
  assumes "path_exists w (names_file a)" and "path_exists w (logo a)" and "path_exists w (font a)"
    and "file_lines w (names_file a) = Some ls" and "\<forall>l\<in>set ls. \<forall>c\<in>set l. isspace c"
    and "\<not> raises w' (NewCanvas (output_path g))" and "\<not> raises w' Save"
  shows "main w a = (Inr 1, \<lparr>canvas = [], stdout = [ErrNoNames]\<rparr>)
         \<and> generate w' g [] r =
             (None, \<lparr>canvas = [NewCanvas (output_path g), Save],
                     stdout = stdout r @ [Generated (output_path g), TotalPages 0]\<rparr>)"
proof -
  from assms(5) have "filter (\<lambda>s. s \<noteq> []) (map strip ls) = []"
    by (simp add: filter_empty_conv strip_blank)
  with assms(4) have "read_names_from_file w (names_file a) = Inr []"
    by (simp add: read_names_from_file_def read_loop_filter)
  with assms(1-3) have "main w a = (Inr 1, \<lparr>canvas = [], stdout = [ErrNoNames]\<rparr>)"
    by (rule main_no_names)
  moreover have "generate w' g [] r =
             (None, \<lparr>canvas = [NewCanvas (output_path g), Save],
                     stdout = stdout r @ [Generated (output_path g), TotalPages 0]\<rparr>)"
    using assms(6,7) by (simp add: generate_def call_def say_def)
  ultimately show ?thesis by simp
qed

theorem empty_names_rejected_by_main_only_witness:
  "main w_blank_file the_args = (Inr 1, \<lparr>canvas = [], stdout = [ErrNoNames]\<rparr>)
   \<and> generate w_ok (the_generator w_ok) [] start =
       (None, \<lparr>canvas = [NewCanvas ''nameplates.pdf'', Save],
               stdout = [Generated ''nameplates.pdf'', TotalPages 0]\<rparr>)"
proof -
  have f: "file_lines w_blank_file (names_file the_args) = Some [[32, 10], [10]]"
    by (simp add: w_blank_file_def)
  have b: "\<forall>l\<in>set [[32, 10], [10]]. \<forall>c\<in>set l. isspace c"
    by (simp add: isspace_simps)
  from empty_names_rejected_by_main_only [of w_blank_file the_args "[[32, 10], [10]]" w_ok
      "the_generator w_ok" start, OF _ _ _ f b]
  show ?thesis
    by (simp add: w_blank_file_simps w_ok_simps the_generator_ok start_def)
qed

text \<open>
  C6, as the specification has it, fails: \<open>generate\<close> on the empty list is not rejected. It returns
  normally, having created the canvas and saved a document with no page.
\<close>

theorem generate_empty_not_rejected:
  "generate w_ok (the_generator w_ok) [] start =
     (None, \<lparr>canvas = [NewCanvas ''nameplates.pdf'', Save],
             stdout = [Generated ''nameplates.pdf'', TotalPages 0]\<rparr>)
   \<and> pages_of (canvas (snd (generate w_ok (the_generator w_ok) [] start))) = []"
  by (simp add: generate_def call_def say_def w_ok_simps the_generator_ok start_def pages_of_def)

subsection \<open>The graphics state\<close>

lemma exec_all_simps:
  "exec_all [] st = st" "exec_all (op # ops) st = exec_all ops (exec op st)"
  "exec_all (xs @ ys) st = exec_all ys (exec_all xs st)"
  by (simp_all add: exec_all_def)

lemma exec_drawing: "is_drawing op \<Longrightarrow> exec op st = st"
  by (cases op; cases st) (simp_all add: is_drawing_def)

lemma exec_no_state:
  "exec (NewCanvas p) st = st" "exec ShowPage st = st" "exec Save st = st"
  by (cases st; simp)+

lemma painted_append:
  "painted (xs @ ys) st = painted xs st @ painted ys (exec_all xs st)"
  by (induction xs arbitrary: st) (simp_all add: exec_all_simps exec_drawing)

lemma exec_name_calls: "exec_all (name_calls w g name x y rotation) st = st"
  by (cases st) (simp add: name_calls_def exec_all_simps)

lemma exec_logo_calls: "exec_all (logo_calls w g x y a b) st = st"
  by (cases st) (simp add: logo_calls_def exec_all_simps)

lemma exec_page: "exec_all (page_body w g name @ [ShowPage]) st = st"
  by (cases st) (simp add: page_body_def exec_all_simps exec_name_calls exec_logo_calls)

lemma painted_logo_calls:
  "painted (logo_calls w g x y a b) st = map (\<lambda>op. (op, ctm (fst st))) (logo_calls w g x y a b)"
  by (simp add: logo_calls_def is_drawing_def)

lemma painted_name_calls:
  "painted (name_calls w g name x y rotation) (gs, stk) =
     (if rotation = 180 then
        [(DrawString (- stringWidth w name (font_name g) (font_size_for g name) / 2) 0 name,
          ctm gs @ [Translate x y, Rotate 180])]
      else
        [(DrawString (x - stringWidth w name (font_name g) (font_size_for g name) / 2) y name,
          ctm gs)])"
  by (simp add: name_calls_def is_drawing_def)

lemma painted_page:
  "painted (page_body w g name @ [ShowPage]) (gs, stk) =
     map (\<lambda>op. (op, ctm gs))
       (logo_calls w g logo_margin (fold_line g + logo_margin) (logo_size g) (logo_size g)) @
     [(DrawString (page_width g / 2 - stringWidth w name (font_name g) (font_size_for g name) / 2)
         (name_y g) name, ctm gs)] @
     map (\<lambda>op. (op, ctm gs)) (logo_calls w g (logo_x g) (logo_y g) (logo_size g) (logo_size g)) @
     [(DrawString (- stringWidth w name (font_name g) (font_size_for g name) / 2) 0 name,
       ctm gs @ [Translate (page_width g / 2) (name_y_bottom g), Rotate 180])]"
  by (simp add: page_body_def painted_append exec_name_calls exec_logo_calls
      painted_logo_calls painted_name_calls is_drawing_def)

lemma painted_concat:
  assumes "\<And>n. exec_all (P n) st = st"
  shows "painted (concat (map P names) @ rest) st =
           concat (map (\<lambda>n. painted (P n) st) names) @ painted rest st"
  by (induction names) (simp_all add: painted_append assms)

lemma painted_generate:
  assumes "\<forall>op. raises w op \<longrightarrow> is_image op"
  shows "painted (canvas (snd (generate w g names r))) gs0 =
           concat (map (\<lambda>n. painted (page_body w g n @ [ShowPage]) gs0) names)"
  by (simp add: generate_run [OF assms] is_drawing_def exec_no_state
      painted_concat [where P = "\<lambda>n. page_body w g n @ [ShowPage]", OF exec_page])

lemma draw_name_returns:
  assumes "fst (draw_name w g name x y rotation r) = None"
  shows "canvas (snd (draw_name w g name x y rotation r)) =
           canvas r @ name_calls w g name x y rotation"
proof -
  let ?ops = "name_calls w g name x y rotation"
  from assms have "dropWhile (\<lambda>op. \<not> raises w op) ?ops = []"
    by (simp add: draw_name_seq seq_calls split: list.splits)
  then have "\<forall>op\<in>set ?ops. \<not> raises w op" by (simp add: dropWhile_eq_Nil_conv)
  then show ?thesis by (simp add: draw_name_seq seq_calls_ok)
qed

lemma draw_name_raises:
  assumes "fst (draw_name w g name x y rotation r) \<noteq> None"
  shows "\<exists>ops. canvas (snd (draw_name w g name x y rotation r)) = canvas r @ ops \<and>
           RestoreState \<notin> set ops"
proof -
  let ?ops = "name_calls w g name x y rotation"
  let ?P = "\<lambda>op. \<not> raises w op"
  obtain pre where pre: "?ops = pre @ [RestoreState]" and nr: "RestoreState \<notin> set pre"
    by (cases "rotation = 180") (simp_all add: name_calls_def)
  from assms have d: "dropWhile ?P ?ops \<noteq> []"
    by (cases "dropWhile ?P ?ops") (simp_all add: draw_name_seq seq_calls)
  have "RestoreState \<notin> set (takeWhile ?P ?ops)"
  proof (cases "\<forall>op\<in>set pre. ?P op")
    case True
    with d pre have "raises w RestoreState"
      by (auto simp: dropWhile_append split: if_splits)
    with True pre have "takeWhile ?P ?ops = pre" by (simp add: takeWhile_append)
    with nr show ?thesis by simp
  next
    case False
    then have "takeWhile ?P ?ops = takeWhile ?P pre"
      unfolding pre by (auto simp: takeWhile_append)
    with nr show ?thesis by (auto dest: set_takeWhileD)
  qed
  then show ?thesis by (simp add: draw_name_seq seq_calls)
qed

lemma name_calls_ends:
  "hd (name_calls w g name x y rotation) = SaveState"
  "last (name_calls w g name x y rotation) = RestoreState"
  by (simp_all add: name_calls_def)

lemma painted_generate_items:
  assumes "\<forall>op. raises w op \<longrightarrow> is_image op"
    and "p \<in> set (painted (canvas (snd (generate w g names r))) gs0)"
  shows "snd p = [] \<or>
         (\<exists>d n. p = (DrawString d 0 n, [Translate (page_width g / 2) (fold_line g / 2), Rotate 180]))"
proof -
  from assms(2) obtain n where
    "p \<in> set (painted (page_body w g n @ [ShowPage]) (\<lparr>ctm = [], cur_font = None\<rparr>, []))"
    unfolding painted_generate [OF assms(1)] by (auto simp: gs0_def)
  then show ?thesis
    unfolding painted_page by (auto simp: name_y_bottom_def)
qed

lemma w_text_fails_simps:
  "path_exists w_text_fails p" "ttfont_ok w_text_fails p"
  "stringWidth w_text_fails name f sz = of_nat (length name) * of_int sz / 2"
  "raises w_text_fails (DrawString x y s)" "\<not> raises w_text_fails SaveState"
  "\<not> raises w_text_fails (SetFont f sz)" "\<not> raises w_text_fails (Translate x y)"
  "\<not> raises w_text_fails (Rotate k)"
  by (simp_all add: w_text_fails_def w_ok_def)

lemma the_generator_text_fails: "the_generator w_text_fails = the_generator w_ok"
  by (simp add: the_generator_custom w_text_fails_simps w_ok_simps)

text \<open>
  C9, as the code has it. A text draw, rotated or not, that returns normally has made its
  calls between a \<^verbatim>\<open>saveState\<close> and a \<^verbatim>\<open>restoreState\<close>, and these calls leave the graphics
  state, transform and stack of saved states included, as it was before the draw. A text
  draw that ends with an exception has not called \<^verbatim>\<open>restoreState\<close>. In a run of \<open>generate\<close>
  in which no call but \<^verbatim>\<open>drawImage\<close> raises, everything is drawn with no transformation in
  force, except the rotated name, drawn under its own translation and rotation only.
\<close>

theorem draw_name_restores_on_return:
  "(fst (draw_name w g name x y rotation r) = None \<longrightarrow>
      (\<exists>ops. canvas (snd (draw_name w g name x y rotation r)) = canvas r @ ops \<and>
             hd ops = SaveState \<and> last ops = RestoreState \<and> exec_all ops st = st))
   \<and> (fst (draw_name w g name x y rotation r) \<noteq> None \<longrightarrow>
      (\<exists>ops. canvas (snd (draw_name w g name x y rotation r)) = canvas r @ ops \<and>
             RestoreState \<notin> set ops))
   \<and> ((\<forall>op. raises w op \<longrightarrow> is_image op) \<longrightarrow>
      (\<forall>p\<in>set (painted (canvas (snd (generate w g names r))) gs0).
         snd p = [] \<or>
         (\<exists>d n. p = (DrawString d 0 n,
                      [Translate (page_width g / 2) (fold_line g / 2), Rotate 180]))))"
proof (intro conjI impI ballI)
  assume "fst (draw_name w g name x y rotation r) = None"
  then have "canvas (snd (draw_name w g name x y rotation r)) =
               canvas r @ name_calls w g name x y rotation"
    by (rule draw_name_returns)
  then show "\<exists>ops. canvas (snd (draw_name w g name x y rotation r)) = canvas r @ ops \<and>
             hd ops = SaveState \<and> last ops = RestoreState \<and> exec_all ops st = st"
    using name_calls_ends [of w g name x y rotation] exec_name_calls [of w g name x y rotation st]
    by blast
next
  assume "fst (draw_name w g name x y rotation r) \<noteq> None"
  then show "\<exists>ops. canvas (snd (draw_name w g name x y rotation r)) = canvas r @ ops \<and>
             RestoreState \<notin> set ops"
    by (rule draw_name_raises)
next
  fix p
  assume "\<forall>op. raises w op \<longrightarrow> is_image op"
    and "p \<in> set (painted (canvas (snd (generate w g names r))) gs0)"
  then show "snd p = [] \<or>
         (\<exists>d n. p = (DrawString d 0 n,
                      [Translate (page_width g / 2) (fold_line g / 2), Rotate 180]))"
    by (rule painted_generate_items)
qed

theorem draw_name_restores_on_return_witness:
  "fst (draw_name w_ok (the_generator w_ok) alice 100 50 180 start) = None
   \<and> exec_all (canvas (snd (draw_name w_ok (the_generator w_ok) alice 100 50 180 start))) gs0 = gs0
   \<and> fst (draw_name w_text_fails (the_generator w_ok) alice 100 50 180 start) \<noteq> None
   \<and> RestoreState \<notin> set (canvas (snd (draw_name w_text_fails (the_generator w_ok) alice 100 50 180 start)))
   \<and> snd (painted (canvas (snd (generate w_ok (the_generator w_ok) [alice] start))) gs0 ! 1) = []
   \<and> snd (painted (canvas (snd (generate w_ok (the_generator w_ok) [alice] start))) gs0 ! 3) =
       [Translate (37800 / 127) (26730 / 127), Rotate 180]"
proof -
  have c: "canvas start = []" by (simp add: start_def)
  have ok: "\<forall>op. raises w_ok op \<longrightarrow> is_image op" by (simp add: w_ok_simps)
  have n: "fst (draw_name w_ok (the_generator w_ok) alice 100 50 180 start) = None"
    by (simp add: draw_name_run [OF ok])
  have e: "fst (draw_name w_text_fails (the_generator w_ok) alice 100 50 180 start) \<noteq> None"
    unfolding draw_name_seq seq_calls
    by (simp add: name_calls_def w_text_fails_simps)
  note t1 = draw_name_restores_on_return [of w_ok "the_generator w_ok" alice 100 50 180 start gs0
      "[alice]"]
  note t2 = draw_name_restores_on_return [of w_text_fails "the_generator w_ok" alice 100 50 180 start]
  from t1 n c have
    "exec_all (canvas (snd (draw_name w_ok (the_generator w_ok) alice 100 50 180 start))) gs0 = gs0"
    by auto
  moreover from t2 e c have
    "RestoreState \<notin> set (canvas (snd (draw_name w_text_fails (the_generator w_ok) alice 100 50 180 start)))"
    by auto
  moreover have
    "painted (canvas (snd (generate w_ok (the_generator w_ok) [alice] start))) gs0 =
      [(DrawImage ''logo.png'' (3600 / 127) (57060 / 127) (10800 / 127) (10800 / 127), []),
       (DrawString (30180 / 127) (80190 / 127) alice, []),
       (DrawImage ''logo.png'' (61200 / 127) (39060 / 127) (10800 / 127) (10800 / 127), []),
       (DrawString (- 60) 0 alice, [Translate (37800 / 127) (26730 / 127), Rotate 180])]"
  proof -
    have "painted (canvas (snd (generate w_ok (the_generator w_ok) [alice] start))) gs0 =
            painted (page_body w_ok (the_generator w_ok) alice @ [ShowPage]) gs0"
      by (simp add: painted_generate [OF ok])
    then show ?thesis
      unfolding gs0_def painted_page
      by (simp add: logo_calls_def w_ok_simps the_generator_ok logo_margin_def mm_def
          logo_x_def logo_y_def name_y_def name_y_bottom_def font_size_for_def)
         (simp add: alice_def)
  qed
  ultimately show ?thesis using n e by simp
qed

text \<open>
  C9, as the specification has it, fails on an error path. In a world where \<^verbatim>\<open>drawString\<close> raises,
  the rotated draw of a name ends with that exception after \<^verbatim>\<open>saveState\<close>, \<^verbatim>\<open>setFont\<close>,
  \<^verbatim>\<open>translate\<close> and \<^verbatim>\<open>rotate\<close>, without \<^verbatim>\<open>restoreState\<close>: the graphics state it leaves has the
  translation and the rotation in force and one saved state on the stack.
\<close>

theorem draw_name_error_leaves_rotation:
  "draw_name w_text_fails (the_generator w_text_fails) alice (37800 / 127) (26730 / 127) 180 start =
     (Some (CanvasError (DrawString (- 60) 0 alice)),
      \<lparr>canvas = [SaveState, SetFont ''CustomFont'' 48,
                 Translate (37800 / 127) (26730 / 127), Rotate 180],
       stdout = []\<rparr>)
   \<and> exec_all [SaveState, SetFont ''CustomFont'' 48,
               Translate (37800 / 127) (26730 / 127), Rotate 180] gs0 =
       (\<lparr>ctm = [Translate (37800 / 127) (26730 / 127), Rotate 180],
         cur_font = Some (''CustomFont'', 48)\<rparr>,
        [\<lparr>ctm = [], cur_font = None\<rparr>])"
proof -
  have "stringWidth w_text_fails alice ''CustomFont'' 48 = 120"
    by (simp add: w_text_fails_simps alice_def)
  then show ?thesis
    unfolding draw_name_seq seq_calls
    by (simp add: name_calls_def w_text_fails_simps the_generator_text_fails
      the_generator_ok font_size_for_def start_def exec_all_simps gs0_def)
qed

subsection \<open>Missing logo, missing font\<close>

lemma logo_skipped:
  assumes "\<not> path_exists w (logo_path g) \<or> (\<forall>x y a b. raises w (DrawImage (logo_path g) x y a b))"
  shows "logo_calls w g x y a b = []"
  using assms by (auto simp: logo_calls_def)

lemma page_body_no_logo:
  assumes "\<not> path_exists w (logo_path g) \<or> (\<forall>x y a b. raises w (DrawImage (logo_path g) x y a b))"
  shows "page_body w g name =
           name_calls w g name (page_width g / 2) (name_y g) 0 @
           name_calls w g name (page_width g / 2) (name_y_bottom g) 180"
  by (simp add: page_body_def logo_skipped [OF assms])

lemma is_image_simps:
  "\<not> is_image (NewCanvas p)" "\<not> is_image Save" "\<not> is_image ShowPage"
  by (simp_all add: is_image_def)

lemma generate_no_image:
  assumes "\<forall>op. raises w op \<longrightarrow> is_image op"
    and "\<not> path_exists w (logo_path g) \<or> (\<forall>x y a b. raises w (DrawImage (logo_path g) x y a b))"
    and "op \<in> set (canvas (snd (generate w g names r)))"
  shows "\<not> is_image op"
  using assms(3) name_calls_no_image
  by (auto simp: generate_run [OF assms(1)] page_body_no_logo [OF assms(2)] is_image_simps
      split: if_splits)

lemma page_body_font:
  assumes "SetFont f s \<in> set (page_body w g name)"
  shows "f = font_name g"
  using assms by (auto simp: page_body_def logo_calls_def name_calls_def split: if_splits)

lemma generate_font:
  assumes "\<forall>op. raises w op \<longrightarrow> is_image op"
    and "SetFont f s \<in> set (canvas (snd (generate w g names r)))"
  shows "f = font_name g"
  using assms(2) page_body_font by (auto simp: generate_run [OF assms(1)] split: if_splits)

lemma init_no_font:
  assumes "\<not> path_exists w fp"
  shows "\<exists>g. init w lp fp outp r = (Inr g, r\<lparr>stdout := stdout r @ [WarnFontNotFound fp]\<rparr>) \<and>
             font_name g = ''Helvetica''"
  using assms by (simp add: init_def say_def)

lemma stdout_logo_missing:
  assumes "\<forall>op. raises w op \<longrightarrow> is_image op" and "\<not> path_exists w (logo_path g)"
  shows "stdout (snd (generate w g names r)) =
           stdout r @
           concat (map (\<lambda>n. [WarnLogoNotFound (logo_path g), WarnLogoNotFound (logo_path g)]) names) @
           [Generated (output_path g), TotalPages (length names)]"
  using assms(2) by (simp add: generate_run [OF assms(1)] page_msgs_def logo_msgs_def)

lemma stdout_logo_unloadable:
  assumes "\<forall>op. raises w op \<longrightarrow> is_image op" and "path_exists w (logo_path g)"
    and "\<forall>x y a b. raises w (DrawImage (logo_path g) x y a b)"
  shows "stdout (snd (generate w g names r)) =
           stdout r @
           concat (map (\<lambda>n.
             [WarnLogoLoad (CanvasError (DrawImage (logo_path g)
                logo_margin (fold_line g + logo_margin) (logo_size g) (logo_size g))),
              WarnLogoLoad (CanvasError (DrawImage (logo_path g)
                (logo_x g) (logo_y g) (logo_size g) (logo_size g)))]) names) @
           [Generated (output_path g), TotalPages (length names)]"
  using assms(2,3) by (simp add: generate_run [OF assms(1)] page_msgs_def logo_msgs_def)

text \<open>
  C8. In a run in which no canvas call but \<^verbatim>\<open>drawImage\<close> raises: when the logo file does
  not exist, or every \<^verbatim>\<open>drawImage\<close> of it raises, \<open>generate\<close> still returns normally, no image
  is drawn, every name still gets its page with its two text draws, in order, the document
  is saved, and two warnings are printed per page. When the font file does not exist,
  \<open>init\<close> prints a warning and returns a generator whose font is Helvetica, and every
  \<^verbatim>\<open>setFont\<close> of the run names Helvetica.
\<close>

theorem missing_logo_or_font_degrades:
  assumes "\<forall>op. raises w op \<longrightarrow> is_image op"
  shows "(\<not> path_exists w (logo_path g) \<or> (\<forall>x y a b. raises w (DrawImage (logo_path g) x y a b)) \<longrightarrow>
            fst (generate w g names r) = None
          \<and> (\<forall>op\<in>set (canvas (snd (generate w g names r))). \<not> is_image op)
          \<and> map texts_of (pages_of (canvas (snd (generate w g names r)))) = map (\<lambda>n. [n, n]) names
          \<and> last (canvas (snd (generate w g names r))) = Save)
       \<and> (\<not> path_exists w (logo_path g) \<longrightarrow>
            stdout (snd (generate w g names r)) =
              stdout r @
              concat (map (\<lambda>n. [WarnLogoNotFound (logo_path g), WarnLogoNotFound (logo_path g)]) names) @
              [Generated (output_path g), TotalPages (length names)])
       \<and> (path_exists w (logo_path g) \<and> (\<forall>x y a b. raises w (DrawImage (logo_path g) x y a b)) \<longrightarrow>
            stdout (snd (generate w g names r)) =
              stdout r @
              concat (map (\<lambda>n.
                [WarnLogoLoad (CanvasError (DrawImage (logo_path g)
                   logo_margin (fold_line g + logo_margin) (logo_size g) (logo_size g))),
                 WarnLogoLoad (CanvasError (DrawImage (logo_path g)
                   (logo_x g) (logo_y g) (logo_size g) (logo_size g)))]) names) @
              [Generated (output_path g), TotalPages (length names)])
       \<and> (\<not> path_exists w fp \<longrightarrow>
            (\<exists>g'. init w lp fp outp r = (Inr g', r\<lparr>stdout := stdout r @ [WarnFontNotFound fp]\<rparr>) \<and>
                  font_name g' = ''Helvetica'' \<and>
                  fst (generate w g' names r') = None \<and>
                  (\<forall>f s. SetFont f s \<in> set (canvas (snd (generate w g' names r'))) \<longrightarrow>
                         f = ''Helvetica'')))"
proof (intro conjI impI)
  assume a: "\<not> path_exists w (logo_path g) \<or> (\<forall>x y a b. raises w (DrawImage (logo_path g) x y a b))"
  show "fst (generate w g names r) = None" by (simp add: generate_run [OF assms])
  show "\<forall>op\<in>set (canvas (snd (generate w g names r))). \<not> is_image op"
    using generate_no_image [OF assms a] by blast
  show "map texts_of (pages_of (canvas (snd (generate w g names r)))) = map (\<lambda>n. [n, n]) names"
    by (simp add: pages_of_generate [OF assms] texts_of_page_body)
  show "last (canvas (snd (generate w g names r))) = Save"
    by (simp add: generate_run [OF assms])
next
  assume "\<not> path_exists w (logo_path g)"
  with assms show "stdout (snd (generate w g names r)) =
      stdout r @
      concat (map (\<lambda>n. [WarnLogoNotFound (logo_path g), WarnLogoNotFound (logo_path g)]) names) @
      [Generated (output_path g), TotalPages (length names)]"
    by (rule stdout_logo_missing)
next
  assume "path_exists w (logo_path g) \<and> (\<forall>x y a b. raises w (DrawImage (logo_path g) x y a b))"
  then show "stdout (snd (generate w g names r)) =
      stdout r @
      concat (map (\<lambda>n.
        [WarnLogoLoad (CanvasError (DrawImage (logo_path g)
           logo_margin (fold_line g + logo_margin) (logo_size g) (logo_size g))),
         WarnLogoLoad (CanvasError (DrawImage (logo_path g)
           (logo_x g) (logo_y g) (logo_size g) (logo_size g)))]) names) @
      [Generated (output_path g), TotalPages (length names)]"
    using stdout_logo_unloadable [OF assms] by blast
next
  assume "\<not> path_exists w fp"
  then obtain g' where
    i: "init w lp fp outp r = (Inr g', r\<lparr>stdout := stdout r @ [WarnFontNotFound fp]\<rparr>)"
    and h: "font_name g' = ''Helvetica''"
    using init_no_font by blast
  have "fst (generate w g' names r') = None" by (simp add: generate_run [OF assms])
  moreover have "f = ''Helvetica''"
    if "SetFont f s \<in> set (canvas (snd (generate w g' names r')))" for f s
    using generate_font [OF assms that] h by simp
  ultimately show "\<exists>g'. init w lp fp outp r = (Inr g', r\<lparr>stdout := stdout r @ [WarnFontNotFound fp]\<rparr>) \<and>
      font_name g' = ''Helvetica'' \<and> fst (generate w g' names r') = None \<and>
      (\<forall>f s. SetFont f s \<in> set (canvas (snd (generate w g' names r'))) \<longrightarrow> f = ''Helvetica'')"
    using i h by blast
qed

lemma w_bad_logo_simps:
  "path_exists w_bad_logo p"
  "raises w_bad_logo op \<longleftrightarrow> is_image op"
  "stringWidth w_bad_logo name f sz = of_nat (length name) * of_int sz / 2"
  by (simp_all add: w_bad_logo_def w_ok_def is_image_def)

theorem missing_logo_or_font_degrades_witness:
  "fst (generate w_no_logo (the_generator w_ok) [alice, bob] start) = None
   \<and> map texts_of (pages_of (canvas (snd (generate w_no_logo (the_generator w_ok) [alice, bob] start)))) =
       [[alice, alice], [bob, bob]]
   \<and> stdout (snd (generate w_no_logo (the_generator w_ok) [alice, bob] start)) =
       [WarnLogoNotFound ''logo.png'', WarnLogoNotFound ''logo.png'',
        WarnLogoNotFound ''logo.png'', WarnLogoNotFound ''logo.png'',
        Generated ''nameplates.pdf'', TotalPages 2]
   \<and> fst (generate w_bad_logo (the_generator w_ok) [alice] start) = None
   \<and> stdout (snd (generate w_bad_logo (the_generator w_ok) [alice] start)) =
       [WarnLogoLoad (CanvasError
          (DrawImage ''logo.png'' (3600 / 127) (57060 / 127) (10800 / 127) (10800 / 127))),
        WarnLogoLoad (CanvasError
          (DrawImage ''logo.png'' (61200 / 127) (39060 / 127) (10800 / 127) (10800 / 127))),
        Generated ''nameplates.pdf'', TotalPages 1]
   \<and> font_name (the_generator w_no_font) = ''Helvetica''
   \<and> snd (init w_no_font ''logo.png'' ''font.ttf'' ''nameplates.pdf'' start) =
       \<lparr>canvas = [], stdout = [WarnFontNotFound ''font.ttf'']\<rparr>"
proof -
  have a: "\<forall>op. raises w_no_logo op \<longrightarrow> is_image op" by (simp add: w_missing_simps)
  have b: "\<forall>op. raises w_bad_logo op \<longrightarrow> is_image op" by (simp add: w_bad_logo_simps)
  have c: "\<forall>op. raises w_no_font op \<longrightarrow> is_image op" by (simp add: w_missing_simps)
  have lp: "logo_path (the_generator w_ok) = ''logo.png''" by (simp add: the_generator_ok)
  note t1 = missing_logo_or_font_degrades [OF a, where g = "the_generator w_ok"
      and names = "[alice, bob]" and r = start and fp = "''font.ttf''" and lp = "''logo.png''"
      and outp = "''nameplates.pdf''" and r' = start]
  note t2 = missing_logo_or_font_degrades [OF b, where g = "the_generator w_ok"
      and names = "[alice]" and r = start and fp = "''font.ttf''" and lp = "''logo.png''"
      and outp = "''nameplates.pdf''" and r' = start]
  note t3 = missing_logo_or_font_degrades [OF c, where g = "the_generator w_ok"
      and names = "[alice]" and r = start and fp = "''font.ttf''" and lp = "''logo.png''"
      and outp = "''nameplates.pdf''" and r' = start]
  have m: "\<not> path_exists w_no_logo (logo_path (the_generator w_ok))"
    by (simp add: lp w_missing_simps)
  have u: "path_exists w_bad_logo (logo_path (the_generator w_ok)) \<and>
           (\<forall>x y a b. raises w_bad_logo (DrawImage (logo_path (the_generator w_ok)) x y a b))"
    by (simp add: w_bad_logo_simps is_image_def)
  have f: "\<not> path_exists w_no_font ''font.ttf''" by (simp add: w_missing_simps)
  from t1 m have "fst (generate w_no_logo (the_generator w_ok) [alice, bob] start) = None"
    by blast
  moreover from t1 m have
    "map texts_of (pages_of (canvas (snd (generate w_no_logo (the_generator w_ok) [alice, bob] start)))) =
       map (\<lambda>n. [n, n]) [alice, bob]"
    by blast
  moreover from t1 m have
    "stdout (snd (generate w_no_logo (the_generator w_ok) [alice, bob] start)) =
       stdout start @
       concat (map (\<lambda>n. [WarnLogoNotFound (logo_path (the_generator w_ok)),
                          WarnLogoNotFound (logo_path (the_generator w_ok))]) [alice, bob]) @
       [Generated (output_path (the_generator w_ok)), TotalPages (length [alice, bob])]"
    by blast
  moreover from t2 u have "fst (generate w_bad_logo (the_generator w_ok) [alice] start) = None"
    by blast
  moreover from t2 u have
    "stdout (snd (generate w_bad_logo (the_generator w_ok) [alice] start)) =
       stdout start @
       concat (map (\<lambda>n.
         [WarnLogoLoad (CanvasError (DrawImage (logo_path (the_generator w_ok))
            logo_margin (fold_line (the_generator w_ok) + logo_margin)
            (logo_size (the_generator w_ok)) (logo_size (the_generator w_ok)))),
          WarnLogoLoad (CanvasError (DrawImage (logo_path (the_generator w_ok))
            (logo_x (the_generator w_ok)) (logo_y (the_generator w_ok))
            (logo_size (the_generator w_ok)) (logo_size (the_generator w_ok))))]) [alice]) @
       [Generated (output_path (the_generator w_ok)), TotalPages (length [alice])]"
    by blast
  moreover from t3 f obtain g' where
    "init w_no_font ''logo.png'' ''font.ttf'' ''nameplates.pdf'' start =
       (Inr g', start\<lparr>stdout := stdout start @ [WarnFontNotFound ''font.ttf'']\<rparr>)"
    and "font_name g' = ''Helvetica''"
    by blast
  then have "font_name (the_generator w_no_font) = ''Helvetica''"
    and "snd (init w_no_font ''logo.png'' ''font.ttf'' ''nameplates.pdf'' start) =
       \<lparr>canvas = [], stdout = [WarnFontNotFound ''font.ttf'']\<rparr>"
    by (simp_all add: the_generator_def start_def)
  ultimately show ?thesis
    by (simp add: the_generator_ok start_def logo_margin_def logo_x_def logo_y_def mm_def)
qed

end
